theory Spec2Isabelle
  imports Main
begin

section \<open>Python strings\<close>

text \<open>
  Python \<open>str\<close> values are modelled as \<open>string\<close> (lists of 8-bit characters).
  \<open>str.lower\<close> is modelled on the ASCII letters; every other character is left as it is.
  \<open>None\<close> for an optional string argument is \<open>None :: string option\<close>.
\<close>

type_synonym bytes = string

definition lower_char :: "char \<Rightarrow> char" where
  "lower_char c =
     (let n = (of_char c :: nat) in if 65 \<le> n \<and> n \<le> 90 then char_of (n + 32) else c)"

definition lower :: "string \<Rightarrow> string" where
  "lower s = map lower_char s"

text \<open>\<open>s.startswith(p)\<close>.\<close>

definition startswith :: "string \<Rightarrow> string \<Rightarrow> bool" where
  "startswith s p = (take (length p) s = p)"

text \<open>\<open>sub in s\<close> on strings: \<open>sub\<close> occurs in \<open>s\<close> as a contiguous run.\<close>

fun contains :: "string \<Rightarrow> string \<Rightarrow> bool" where
  "contains sub [] = (sub = [])"
| "contains sub (c # cs) = (startswith (c # cs) sub \<or> contains sub cs)"

text \<open>
  \<open>str.isspace\<close> on one character, for the code points below 256: TAB, LF, VT, FF, CR,
  the separators 0x1c..0x1f, the space, NEL (0x85) and the no-break space (0xa0).
\<close>

definition isspace :: "char \<Rightarrow> bool" where
  "isspace c =
     (let n = (of_char c :: nat) in
        (9 \<le> n \<and> n \<le> 13) \<or> (28 \<le> n \<and> n \<le> 32) \<or> n = 133 \<or> n = 160)"

definition lstrip :: "string \<Rightarrow> string" where
  "lstrip s = dropWhile isspace s"

definition rstrip :: "string \<Rightarrow> string" where
  "rstrip s = rev (dropWhile isspace (rev s))"

text \<open>\<open>str.strip()\<close> removes the white space at both ends.\<close>

definition strip :: "string \<Rightarrow> string" where
  "strip s = lstrip (rstrip s)"

text \<open>\<open>p.rfind(c)\<close> for a one-character \<open>c\<close>: the last index of \<open>c\<close>, or \<open>-1\<close>.\<close>

definition rfind :: "string \<Rightarrow> char \<Rightarrow> int" where
  "rfind p c =
     (if c \<in> set p
      then int (length p) - 1 - int (length (takeWhile (\<lambda>x. x \<noteq> c) (rev p)))
      else - 1)"

text \<open>
  \<open>os.path.splitext\<close> (\<open>posixpath\<close>: separator \<open>/\<close>, no alternative separator). The
  library's loop walks from the start of the last path component to the last dot and
  splits there as soon as it meets a character that is not a dot; a component made of
  leading dots only has no extension. \<open>skip_leading_dots\<close> is that loop on the slice
  \<open>p[sepIndex + 1 : dotIndex]\<close>.
\<close>

fun skip_leading_dots :: "string \<Rightarrow> bool" where
  "skip_leading_dots [] = False"
| "skip_leading_dots (c # cs) = (if c \<noteq> CHR ''.'' then True else skip_leading_dots cs)"

definition splitext :: "string \<Rightarrow> string \<times> string" where
  "splitext p =
     (let sepIndex = rfind p (CHR ''/'');
          dotIndex = rfind p (CHR ''.'')
      in if dotIndex > sepIndex \<and>
            skip_leading_dots (take (nat (dotIndex - (sepIndex + 1))) (drop (nat (sepIndex + 1)) p))
         then (take (nat dotIndex) p, drop (nat dotIndex) p)
         else (p, []))"

text \<open>\<open>os.path.basename\<close> (\<open>posixpath\<close>): what follows the last \<open>/\<close>.\<close>

definition basename :: "string \<Rightarrow> string" where
  "basename p = drop (nat (rfind p (CHR ''/'') + 1)) p"

section \<open>The two classifiers\<close>

text \<open>
  \<open>get_generic_doc_type\<close> of \<open>orchestrator_service.py\<close>. The kinds are the strings the
  code returns. \<open>truthy\<close> is Python's truth value of an optional string: \<open>None\<close> and the
  empty string are false.
\<close>

definition truthy :: "string option \<Rightarrow> bool" where
  "truthy s = (case s of None \<Rightarrow> False | Some x \<Rightarrow> x \<noteq> [])"

definition extension_mapping :: "(string \<times> string) list" where
  "extension_mapping =
     [(''.pdf'', ''PDF''), (''.doc'', ''WORD''), (''.docx'', ''WORD''), (''.txt'', ''TEXT''),
      (''.jpg'', ''IMAGE''), (''.jpeg'', ''IMAGE''), (''.png'', ''IMAGE''), (''.gif'', ''IMAGE''),
      (''.jfif'', ''IMAGE''), (''.eml'', ''EMAIL'')]"

text \<open>\<open>d.get(k, default)\<close> on a dictionary literal.\<close>

definition dict_get :: "(string \<times> string) list \<Rightarrow> string \<Rightarrow> string \<Rightarrow> string" where
  "dict_get d k dflt = (case map_of d k of Some v \<Rightarrow> v | None \<Rightarrow> dflt)"

definition get_generic_doc_type :: "string option \<Rightarrow> string option \<Rightarrow> string" where
  "get_generic_doc_type mime_type0 filename =
     (let mime_type = (if truthy mime_type0 then lower (the mime_type0) else [])
      in if mime_type = ''email'' \<or> (truthy filename \<and> startswith (the filename) ''Email_'')
         then ''EMAIL''
         else if contains ''pdf'' mime_type then ''PDF''
         else if list_ex (\<lambda>word_type. contains word_type mime_type)
                   [''word'', ''wordprocessing'', ''msword'',
                    ''openxmlformats-officedocument.wordprocessingml'']
         then ''WORD''
         else if list_ex (\<lambda>img_type. contains img_type mime_type)
                   [''image/'', ''jpeg'', ''jpg'', ''png'', ''gif'', ''bmp'', ''tiff'']
         then ''IMAGE''
         else if contains ''text/'' mime_type \<or> mime_type = ''application/txt'' then ''TEXT''
         else if truthy filename \<and> (mime_type = ''application/octet-stream'' \<or> mime_type = [])
         then dict_get extension_mapping (snd (splitext (lower (the filename)))) ''OTHER''
         else ''OTHER'')"

text \<open>
  \<open>ReceiverService.get_generic_doc_type\<close> of \<open>receiver_service.py\<close>: the extension
  table alone, with \<open>.txt\<close> mapped to \<open>EMAIL\<close>.
\<close>

definition receiver_extension_mapping :: "(string \<times> string) list" where
  "receiver_extension_mapping =
     [(''.pdf'', ''PDF''), (''.doc'', ''WORD''), (''.docx'', ''WORD''), (''.txt'', ''EMAIL''),
      (''.jpg'', ''IMAGE''), (''.jpeg'', ''IMAGE''), (''.png'', ''IMAGE''), (''.gif'', ''IMAGE''),
      (''.jfif'', ''IMAGE''), (''.eml'', ''EMAIL'')]"

definition ReceiverService_get_generic_doc_type :: "string \<Rightarrow> string" where
  "ReceiverService_get_generic_doc_type blob_name =
     dict_get receiver_extension_mapping (snd (splitext (lower blob_name))) ''OTHER''"

section \<open>Documents, collaborators and the state of a run\<close>

text \<open>
  A raised Python exception, carrying \<open>str(e)\<close>. A computation that may raise has a
  result of type \<open>exn + 'a\<close>, with \<open>Inl\<close> for the exception.
\<close>

datatype exn = Exn string

fun str_of :: "exn \<Rightarrow> string" where
  "str_of (Exn m) = m"

text \<open>
  The \<open>Document\<close> row of \<open>models.py\<close>. The two time stamps are left out; the nullable
  text columns are options.
\<close>

record document =
  doc_id :: string
  doc_name :: string
  doc_type :: string
  status :: string
  azure_blob_url :: string
  session_id :: string
  extracted_text :: "string option"
  entity_list :: "string option"

text \<open>
  What the libraries and services outside the repository do is a parameter of the model:
  the blob download and listing, the PDF, Word, image and OCR libraries, the decoding of a
  file opened in text mode, the commit of one row, the opening of a local path for
  writing, the removal of one staged file, and the supply of fresh identifiers. A PDF
  reader is the list of its pages, each of them the outcome of reading the page and
  extracting its text. The queries on the rows and the listing of the blobs are taken to
  succeed.
\<close>

record env =
  download_blob :: "string \<Rightarrow> exn + bytes"
  list_blobs :: "string \<Rightarrow> string list"
  blob_url :: "string \<Rightarrow> string"
  PdfReader :: "bytes \<Rightarrow> exn + (exn + string) list"
  WordDocument :: "bytes \<Rightarrow> exn + string list"
  Image_open :: "bytes \<Rightarrow> exn + bytes"
  image_to_string :: "bytes \<Rightarrow> exn + string"
  read_text :: "bytes \<Rightarrow> exn + string"
  db_commit :: "document \<Rightarrow> exn option"
  open_wb :: "string \<Rightarrow> exn option"
  os_remove :: "string \<Rightarrow> exn option"
  uuid4 :: "nat \<Rightarrow> string"

datatype llm_call = Refine string | ExtractEntities string

text \<open>
  The state a run works on: the committed rows, the local files by path, whether the
  staging directory \<open>temp\<close> exists, the calls made to the two language-model
  collaborators, and the number of identifiers drawn so far.
\<close>

record world =
  db :: "document list"
  files :: "(string \<times> bytes) list"
  temp_exists :: bool
  llm_calls :: "llm_call list"
  uuid_seed :: nat

text \<open>\<open>os.path.join\<close> of two components (\<open>posixpath\<close>): an absolute second component
  replaces the first.\<close>

definition path_join :: "string \<Rightarrow> string \<Rightarrow> string" where
  "path_join a b =
     (if startswith b ''/'' then b
      else if a = [] \<or> last a = CHR ''/'' then a @ b
      else a @ ''/'' @ b)"

text \<open>Writing the whole of one file, which creates it or replaces its contents.\<close>

definition write_file :: "(string \<times> bytes) list \<Rightarrow> string \<Rightarrow> bytes \<Rightarrow> (string \<times> bytes) list" where
  "write_file fs path content = (path, content) # filter (\<lambda>f. fst f \<noteq> path) fs"

text \<open>
  \<open>open(os.path.join("temp", name), "wb")\<close>. For the empty name and for the names \<open>.\<close>
  and \<open>..\<close> the path is a directory, and opening it raises; for every other name the
  outcome is the collaborator's (a missing sub-directory, a name the file system refuses,
  a directory that cannot be written).
\<close>

definition open_for_writing :: "env \<Rightarrow> string \<Rightarrow> exn option" where
  "open_for_writing env name =
     (if name = [] \<or> name = ''.'' \<or> name = ''..'' then Some (Exn ''Is a directory'')
      else open_wb env (path_join ''temp'' name))"

text \<open>Opening a local path for reading: the file has to be there.\<close>

definition open_file :: "world \<Rightarrow> string \<Rightarrow> exn + bytes" where
  "open_file w file_path =
     (case map_of (files w) file_path of
        None \<Rightarrow> Inl (Exn ''No such file or directory'')
      | Some content \<Rightarrow> Inr content)"

section \<open>The extraction strategies\<close>

text \<open>
  The page loop of \<open>extract_text_from_pdf\<close>: a page that raises is skipped, a page whose
  text is blank adds nothing, any other page adds its text and a newline.
\<close>

fun pdf_pages_loop :: "(exn + string) list \<Rightarrow> string \<Rightarrow> string" where
  "pdf_pages_loop [] text = text"
| "pdf_pages_loop (page # pages) text =
     (case page of
        Inl e \<Rightarrow> pdf_pages_loop pages text
      | Inr page_text \<Rightarrow>
          if strip page_text \<noteq> [] then pdf_pages_loop pages (text @ page_text @ ''\<newline>'')
          else pdf_pages_loop pages text)"

text \<open>
  The body of the outer \<open>try\<close>: opening the file may raise; a failure of the reader is
  caught by the inner handler, which returns the empty string.
\<close>

definition pdf_try_body :: "env \<Rightarrow> world \<Rightarrow> string \<Rightarrow> exn + string" where
  "pdf_try_body env w file_path =
     (case open_file w file_path of
        Inl e \<Rightarrow> Inl e
      | Inr file \<Rightarrow>
          (case PdfReader env file of
             Inl e \<Rightarrow> Inr []
           | Inr pages \<Rightarrow> Inr (strip (pdf_pages_loop pages []))))"

definition extract_text_from_pdf :: "env \<Rightarrow> world \<Rightarrow> string \<Rightarrow> exn + string" where
  "extract_text_from_pdf env w file_path =
     (case pdf_try_body env w file_path of Inl e \<Rightarrow> Inr [] | Inr text \<Rightarrow> Inr text)"

text \<open>\<open>extract_text_from_word\<close> has no handler: what the library raises propagates.\<close>

definition extract_text_from_word :: "env \<Rightarrow> world \<Rightarrow> string \<Rightarrow> exn + string" where
  "extract_text_from_word env w file_path =
     (case open_file w file_path of
        Inl e \<Rightarrow> Inl e
      | Inr file \<Rightarrow>
          (case WordDocument env file of
             Inl e \<Rightarrow> Inl e
           | Inr paragraphs \<Rightarrow> Inr (foldl (\<lambda>text paragraph. text @ paragraph) [] paragraphs)))"

definition image_try_body :: "env \<Rightarrow> world \<Rightarrow> string \<Rightarrow> exn + string" where
  "image_try_body env w file_path =
     (case open_file w file_path of
        Inl e \<Rightarrow> Inl e
      | Inr file \<Rightarrow>
          (case Image_open env file of
             Inl e \<Rightarrow> Inl e
           | Inr img \<Rightarrow> image_to_string env img))"

definition extract_text_from_image :: "env \<Rightarrow> world \<Rightarrow> string \<Rightarrow> exn + string" where
  "extract_text_from_image env w file_path =
     (case image_try_body env w file_path of Inl e \<Rightarrow> Inr [] | Inr text \<Rightarrow> Inr text)"

text \<open>The \<open>EMAIL\<close> branch reads the file in text mode, in line and with no handler.\<close>

definition read_local_text :: "env \<Rightarrow> world \<Rightarrow> string \<Rightarrow> exn + string" where
  "read_local_text env w file_path =
     (case open_file w file_path of Inl e \<Rightarrow> Inl e | Inr file \<Rightarrow> read_text env file)"

text \<open>The dispatch on \<open>doc.doc_type\<close> in \<open>process_session_documents\<close>.\<close>

definition extract_text :: "env \<Rightarrow> world \<Rightarrow> document \<Rightarrow> string \<Rightarrow> exn + string" where
  "extract_text env w doc local_file_path =
     (if doc_type doc = ''PDF'' then extract_text_from_pdf env w local_file_path
      else if doc_type doc = ''WORD'' then extract_text_from_word env w local_file_path
      else if doc_type doc = ''IMAGE'' then extract_text_from_image env w local_file_path
      else if doc_type doc = ''EMAIL'' then read_local_text env w local_file_path
      else Inr [])"

section \<open>The language-model stubs\<close>

definition refine_text_using_llm :: "string \<Rightarrow> string" where
  "refine_text_using_llm text = text"

text \<open>\<open>sep.join(xs)\<close>.\<close>

fun str_join :: "string \<Rightarrow> string list \<Rightarrow> string" where
  "str_join sep [] = []"
| "str_join sep [x] = x"
| "str_join sep (x # y # ys) = x @ sep @ str_join sep (y # ys)"

definition llm_response :: "(string \<times> string) list" where
  "llm_response = [(''Person'', ''John Doe''), (''Organization'', ''Acme Inc.'')]"

definition extract_entities_using_llm :: "string \<Rightarrow> string" where
  "extract_entities_using_llm text =
     str_join ''\<newline>'' (map (\<lambda>entity. fst entity @ '': '' @ snd entity) llm_response)"

section \<open>The extraction pipeline\<close>

text \<open>
  One turn of the loop of \<open>ExtractorService.process_session_documents\<close>. The staging
  directory is made first. Opening the local file for writing creates it empty before
  the download is read; the opening, the download, the extraction and the commit may
  raise, and nothing in the loop catches it. The
  second component is the exception that left the turn, if any. \<open>persist\<close> is the end
  of the turn, from the refinement of the raw text to the commit of the row.
\<close>

definition persist :: "env \<Rightarrow> world \<Rightarrow> document \<Rightarrow> string \<Rightarrow> world \<times> exn option" where
  "persist env w doc text =
     (let refined_text = (if text \<noteq> [] then refine_text_using_llm text else []);
          entities = (if text \<noteq> [] then extract_entities_using_llm refined_text else []);
          w3 = (if text \<noteq> []
                then w\<lparr>llm_calls := llm_calls w @ [Refine text, ExtractEntities refined_text]\<rparr>
                else w);
          doc' = doc\<lparr>extracted_text := Some refined_text, entity_list := Some entities\<rparr>
      in (case db_commit env doc' of
            Some e \<Rightarrow> (w3, Some e)
          | None \<Rightarrow>
              (w3\<lparr>db := map (\<lambda>d. if doc_id d = doc_id doc then doc' else d) (db w3)\<rparr>, None)))"

definition process_document :: "env \<Rightarrow> string \<Rightarrow> world \<Rightarrow> document \<Rightarrow> world \<times> exn option" where
  "process_document env sid w doc =
     (let local_file_path = path_join ''temp'' (doc_name doc);
          w0 = w\<lparr>temp_exists := True\<rparr>;
          w2 = (\<lambda>content. w\<lparr>files := write_file (files w) local_file_path content,
                              temp_exists := True\<rparr>)
      in (case open_for_writing env (doc_name doc) of
            Some e \<Rightarrow> (w0, Some e)
          | None \<Rightarrow>
              (case download_blob env (sid @ ''/'' @ doc_name doc) of
                 Inl e \<Rightarrow> (w2 [], Some e)
               | Inr content \<Rightarrow>
                   (case extract_text env (w2 content) doc local_file_path of
                      Inl e \<Rightarrow> (w2 content, Some e)
                    | Inr text \<Rightarrow> persist env (w2 content) doc text))))"

fun process_documents :: "env \<Rightarrow> string \<Rightarrow> world \<Rightarrow> document list \<Rightarrow> world \<times> exn option" where
  "process_documents env sid w [] = (w, None)"
| "process_documents env sid w (doc # docs) =
     (case process_document env sid w doc of
        (w', Some e) \<Rightarrow> (w', Some e)
      | (w', None) \<Rightarrow> process_documents env sid w' docs)"

text \<open>
  The whole call: the rows of the session are listed once, the loop runs inside one
  \<open>try\<close>, and its handler raises \<open>Failed to process session\<close>.
\<close>

definition process_session_documents ::
  "env \<Rightarrow> world \<Rightarrow> string \<Rightarrow> world \<times> (exn + string \<times> string)" where
  "process_session_documents env w sid =
     (let doc_list = filter (\<lambda>d. session_id d = sid) (db w)
      in case process_documents env sid w doc_list of
           (w', Some e) \<Rightarrow> (w', Inl (Exn (''Failed to process session: '' @ str_of e)))
         | (w', None) \<Rightarrow>
             (w', Inr (''success'',
                       ''All documents for session '' @ sid @ '' processed successfully'')))"






section \<open>Ingestion\<close>

text \<open>
  An entry of the result list of \<open>ReceiverService.process_session_documents\<close>: identifier,
  name, kind, status and locator of a record, or the name and message of a failure (whose
  status is \<open>error\<close>).
\<close>

datatype result_entry =
    DocResult string string string string string
  | ErrorResult string string

fun result_status :: "result_entry \<Rightarrow> string" where
  "result_status (DocResult i n k s u) = s"
| "result_status (ErrorResult n e) = ''error''"

text \<open>The query for an existing record, \<open>.first()\<close> of the rows that match.\<close>

definition find_existing :: "document list \<Rightarrow> string \<Rightarrow> string \<Rightarrow> string \<Rightarrow> document option" where
  "find_existing rows file_name sid dtype =
     find (\<lambda>d. doc_name d = file_name \<and> session_id d = sid \<and> doc_type d = dtype) rows"

text \<open>
  One turn of the loop over the blobs: an existing record is reported and nothing is
  written; otherwise a record is added and committed (\<open>create_document\<close>), and a
  failing commit is rolled back and reported as an error entry.
\<close>

definition create_document :: "env \<Rightarrow> string \<Rightarrow> world \<Rightarrow> string \<Rightarrow> world \<times> result_entry" where
  "create_document env sid w blob_name =
     (let file_name = basename blob_name;
          dtype = ReceiverService_get_generic_doc_type file_name;
          url = blob_url env blob_name;
          new_id = uuid4 env (uuid_seed w);
          w1 = w\<lparr>uuid_seed := Suc (uuid_seed w)\<rparr>;
          document = \<lparr>doc_id = new_id, doc_name = file_name, doc_type = dtype,
                      status = ''RECEIVED'', azure_blob_url = url, session_id = sid,
                      extracted_text = None, entity_list = None\<rparr>
      in (case db_commit env document of
            Some e \<Rightarrow> (w1, ErrorResult blob_name (str_of e))
          | None \<Rightarrow> (w1\<lparr>db := db w1 @ [document]\<rparr>, DocResult new_id file_name dtype ''success'' url)))"

definition ingest_blob :: "env \<Rightarrow> string \<Rightarrow> world \<Rightarrow> string \<Rightarrow> world \<times> result_entry" where
  "ingest_blob env sid w blob_name =
     (let file_name = basename blob_name;
          dtype = ReceiverService_get_generic_doc_type file_name
      in (case find_existing (db w) file_name sid dtype of
            Some existing_doc \<Rightarrow>
              (w, DocResult (doc_id existing_doc) (doc_name existing_doc) (doc_type existing_doc)
                    ''exists'' (azure_blob_url existing_doc))
          | None \<Rightarrow> create_document env sid w blob_name))"

fun ingest_blobs :: "env \<Rightarrow> string \<Rightarrow> world \<Rightarrow> string list \<Rightarrow> world \<times> result_entry list" where
  "ingest_blobs env sid w [] = (w, [])"
| "ingest_blobs env sid w (blob # blobs) =
     (case ingest_blob env sid w blob of
        (w', r) \<Rightarrow> (case ingest_blobs env sid w' blobs of (w'', rs) \<Rightarrow> (w'', r # rs)))"

text \<open>
  The whole call lists the blobs under \<open>session_id/\<close> and returns the result entries (the
  message of the returned dictionary only repeats their number and the session).
\<close>

definition ReceiverService_process_session_documents ::
  "env \<Rightarrow> world \<Rightarrow> string \<Rightarrow> world \<times> result_entry list" where
  "ReceiverService_process_session_documents env w sid =
     ingest_blobs env sid w (list_blobs env (sid @ ''/''))"

section \<open>The kinds\<close>

definition kinds :: "string list" where
  "kinds = [''PDF'', ''WORD'', ''IMAGE'', ''TEXT'', ''EMAIL'', ''OTHER'']"

section \<open>The PDF text, as the specification words it\<close>

text \<open>
  The texts of the pages that could be read, in page order; and the text the strategy is
  to return: the texts that are not blank, each followed by a newline, joined in page
  order and stripped of the white space at both ends.
\<close>

definition readable_texts :: "(exn + string) list \<Rightarrow> string list" where
  "readable_texts pages = concat (map (\<lambda>page. case page of Inl e \<Rightarrow> [] | Inr t \<Rightarrow> [t]) pages)"

definition pdf_text_spec :: "(exn + string) list \<Rightarrow> string" where
  "pdf_text_spec pages =
     strip (concat (map (\<lambda>t. t @ ''\<newline>'') (filter (\<lambda>t. strip t \<noteq> []) (readable_texts pages))))"

section \<open>Sample collaborators and sessions\<close>

text \<open>
  Collaborators that all succeed, but for the Word library, which rejects every file; the
  PDF library reports one unreadable page and one page with the text \<open>hi\<close> after a space.
\<close>

definition sample_env :: env where
  "sample_env =
     \<lparr>download_blob = (\<lambda>path. Inr ''hello''),
      list_blobs = (\<lambda>prefix. [''s/a.txt'', ''s/b.pdf'']),
      blob_url = (\<lambda>blob. ''https://blobs/'' @ blob),
      PdfReader = (\<lambda>file. Inr [Inl (Exn ''unreadable page''), Inr '' hi'']),
      WordDocument = (\<lambda>file. Inl (Exn ''Package not found'')),
      Image_open = (\<lambda>file. Inr file),
      image_to_string = (\<lambda>img. Inr img),
      read_text = (\<lambda>file. Inr file),
      db_commit = (\<lambda>d. None),
      open_wb = (\<lambda>path. None),
      os_remove = (\<lambda>path. None),
      uuid4 = (\<lambda>n. replicate (Suc n) (CHR ''u''))\<rparr>"

text \<open>The same collaborators, with the download of \<open>s/a.txt\<close> failing.\<close>

definition failing_download_env :: env where
  "failing_download_env =
     sample_env\<lparr>download_blob :=
       (\<lambda>path. if path = ''s/a.txt'' then Inl (Exn ''BlobNotFound'') else Inr ''hello'')\<rparr>"

definition sample_doc :: "string \<Rightarrow> string \<Rightarrow> string \<Rightarrow> document" where
  "sample_doc ident name kind =
     \<lparr>doc_id = ident, doc_name = name, doc_type = kind, status = ''RECEIVED'',
      azure_blob_url = ''https://blobs/s/'' @ name, session_id = ''s'',
      extracted_text = None, entity_list = None\<rparr>"

definition sample_world :: "document list \<Rightarrow> world" where
  "sample_world rows =
     \<lparr>db = rows, files = [], temp_exists = False, llm_calls = [], uuid_seed = 0\<rparr>"

text \<open>A staging directory that holds one file.\<close>

definition staged_world :: "string \<Rightarrow> bytes \<Rightarrow> world" where
  "staged_world name content =
     \<lparr>db = [], files = [(''temp/'' @ name, content)], temp_exists = True, llm_calls = [],
      uuid_seed = 0\<rparr>"


text \<open>A row without its two text columns, the only ones the extraction pipeline writes.\<close>

definition metadata :: "document \<Rightarrow> document" where
  "metadata d = d\<lparr>extracted_text := None, entity_list := None\<rparr>"

text \<open>
  The record the receiver's query finds for a blob of a session, and the result entry it
  reports for a record that exists.
\<close>

definition lookup_blob :: "document list \<Rightarrow> string \<Rightarrow> string \<Rightarrow> document option" where
  "lookup_blob rows sid blob_name =
     find_existing rows (basename blob_name) sid
       (ReceiverService_get_generic_doc_type (basename blob_name))"

definition exists_entry :: "document \<Rightarrow> result_entry" where
  "exists_entry d = DocResult (doc_id d) (doc_name d) (doc_type d) ''exists'' (azure_blob_url d)"

section \<open>Properties of the classifiers\<close>

lemma dict_get_range: "dict_get d k dflt = dflt \<or> dict_get d k dflt \<in> snd ` set d"
  by (auto simp: dict_get_def split: option.splits dest!: map_of_SomeD intro: rev_image_eqI)

lemma extension_mapping_kinds: "dict_get extension_mapping k ''OTHER'' \<in> set kinds"
  using dict_get_range [of extension_mapping k "''OTHER''"]
  by (auto simp: extension_mapping_def kinds_def)

lemma get_generic_doc_type_kinds: "get_generic_doc_type m f \<in> set kinds"
proof -
  have k: "''PDF'' \<in> set kinds" "''WORD'' \<in> set kinds" "''IMAGE'' \<in> set kinds"
    "''TEXT'' \<in> set kinds" "''EMAIL'' \<in> set kinds" "''OTHER'' \<in> set kinds"
    by (simp_all add: kinds_def)
  have if_in: "\<And>c a b S. a \<in> S \<Longrightarrow> b \<in> S \<Longrightarrow> (if c then a else b) \<in> (S :: string set)"
    by simp
  show ?thesis
    unfolding get_generic_doc_type_def Let_def
    by (intro if_in k extension_mapping_kinds)
qed

lemma lower_pdf: "lower ''application/pdf'' = ''application/pdf''"
  by (simp add: lower_def lower_char_def)

lemma lower_jpeg: "lower ''image/jpeg'' = ''image/jpeg''"
  by (simp add: lower_def lower_char_def)

lemma contains_pdf: "contains ''pdf'' ''application/pdf''"
  by code_simp

lemma contains_jpeg:
  "contains ''image/'' ''image/jpeg''" "\<not> contains ''pdf'' ''image/jpeg''"
  "\<not> contains ''word'' ''image/jpeg''" "\<not> contains ''wordprocessing'' ''image/jpeg''"
  "\<not> contains ''msword'' ''image/jpeg''"
  "\<not> contains ''openxmlformats-officedocument.wordprocessingml'' ''image/jpeg''"
  by code_simp+

lemma pdf_mime:
  "get_generic_doc_type (Some ''application/pdf'') f =
     (if truthy f \<and> startswith (the f) ''Email_'' then ''EMAIL'' else ''PDF'')"
  by (simp add: get_generic_doc_type_def Let_def truthy_def lower_pdf contains_pdf
      del: contains.simps)

lemma jpeg_mime:
  "get_generic_doc_type (Some ''image/jpeg'') f =
     (if truthy f \<and> startswith (the f) ''Email_'' then ''EMAIL'' else ''IMAGE'')"
  by (simp add: get_generic_doc_type_def Let_def truthy_def lower_jpeg contains_jpeg
      del: contains.simps)

lemma octet_stream_docx:
  "get_generic_doc_type (Some ''application/octet-stream'') (Some ''report.docx'') = ''WORD''"
  by code_simp

lemma octet_stream_xyz:
  "get_generic_doc_type (Some ''application/octet-stream'') (Some ''notes.xyz'') = ''OTHER''"
  by code_simp

lemma none_Email_txt: "get_generic_doc_type None (Some ''Email_123.txt'') = ''EMAIL''"
  by code_simp

text \<open>
  C5, as amended. For every MIME type and file name, each of them possibly absent,
  \<open>get_generic_doc_type\<close> returns one of the six kinds. A file name that does not start
  with \<open>Email_\<close> (or is absent or empty) is classified \<open>PDF\<close> under \<open>application/pdf\<close>
  and \<open>IMAGE\<close> under \<open>image/jpeg\<close>; one that starts with \<open>Email_\<close> is classified
  \<open>EMAIL\<close> under both, the prefix rule coming first. The three other examples of the
  claim hold as they are written.
\<close>

theorem get_generic_doc_type_total_six_kinds:
  "get_generic_doc_type m f \<in> set kinds \<and>
   (\<not> (truthy f \<and> startswith (the f) ''Email_'') \<longrightarrow>
      get_generic_doc_type (Some ''application/pdf'') f = ''PDF'' \<and>
      get_generic_doc_type (Some ''image/jpeg'') f = ''IMAGE'') \<and>
   (truthy f \<and> startswith (the f) ''Email_'' \<longrightarrow>
      get_generic_doc_type (Some ''application/pdf'') f = ''EMAIL'' \<and>
      get_generic_doc_type (Some ''image/jpeg'') f = ''EMAIL'') \<and>
   get_generic_doc_type (Some ''application/octet-stream'') (Some ''report.docx'') = ''WORD'' \<and>
   get_generic_doc_type (Some ''application/octet-stream'') (Some ''notes.xyz'') = ''OTHER'' \<and>
   get_generic_doc_type None (Some ''Email_123.txt'') = ''EMAIL''"
  by (simp only: get_generic_doc_type_kinds pdf_mime jpeg_mime octet_stream_docx
      octet_stream_xyz none_Email_txt) simp

theorem get_generic_doc_type_total_six_kinds_witness:
  "get_generic_doc_type (Some ''text/plain'') (Some ''notes.txt'') \<in> set kinds \<and>
   get_generic_doc_type (Some ''application/pdf'') (Some ''notes.txt'') = ''PDF'' \<and>
   get_generic_doc_type (Some ''image/jpeg'') (Some ''notes.txt'') = ''IMAGE'' \<and>
   get_generic_doc_type (Some ''application/pdf'') (Some ''Email_7.pdf'') = ''EMAIL'' \<and>
   get_generic_doc_type (Some ''image/jpeg'') (Some ''Email_7.pdf'') = ''EMAIL''"
  using get_generic_doc_type_total_six_kinds [of "Some ''text/plain''" "Some ''notes.txt''"]
    get_generic_doc_type_total_six_kinds [of None "Some ''Email_7.pdf''"]
  by (simp add: truthy_def startswith_def)

text \<open>
  C5 as it is stated fails: under \<open>application/pdf\<close> the file name \<open>Email_1.pdf\<close> is not
  classified \<open>PDF\<close>, and under \<open>image/jpeg\<close> the file name \<open>Email_1.jpg\<close> is not
  classified \<open>IMAGE\<close>.
\<close>

theorem get_generic_doc_type_pdf_counterexample:
  "get_generic_doc_type (Some ''application/pdf'') (Some ''Email_1.pdf'') \<noteq> ''PDF'' \<and>
   get_generic_doc_type (Some ''image/jpeg'') (Some ''Email_1.jpg'') \<noteq> ''IMAGE''"
  by code_simp

lemma Email_prefix_EMAIL:
  assumes "startswith n ''Email_''"
  shows "get_generic_doc_type None (Some n) = ''EMAIL''"
    and "get_generic_doc_type (Some []) (Some n) = ''EMAIL''"
proof -
  from assms have "n \<noteq> []" by (auto simp: startswith_def)
  with assms show "get_generic_doc_type None (Some n) = ''EMAIL''"
    and "get_generic_doc_type (Some []) (Some n) = ''EMAIL''"
    by (simp_all add: get_generic_doc_type_def truthy_def)
qed

text \<open>
  C9. The blob-name classifier is the extension table alone: its result depends on the
  extension of the lower-cased name only. So for every file name that starts with
  \<open>Email_\<close> and whose extension the table maps to a kind other than \<open>EMAIL\<close> (an
  unmapped extension going to \<open>OTHER\<close>), the blob-name classifier returns that kind,
  while the MIME-based classifier, given no MIME type or the empty one, returns \<open>EMAIL\<close>:
  the two disagree.
\<close>

theorem classifiers_disagree_on_Email_prefix:
  assumes "startswith f ''Email_''"
    and "dict_get receiver_extension_mapping (snd (splitext (lower f))) ''OTHER'' \<noteq> ''EMAIL''"
  shows "ReceiverService_get_generic_doc_type f =
           dict_get receiver_extension_mapping (snd (splitext (lower f))) ''OTHER'' \<and>
         get_generic_doc_type None (Some f) = ''EMAIL'' \<and>
         get_generic_doc_type (Some []) (Some f) = ''EMAIL'' \<and>
         ReceiverService_get_generic_doc_type f \<noteq> get_generic_doc_type None (Some f) \<and>
         (snd (splitext (lower g)) = snd (splitext (lower f)) \<longrightarrow>
            ReceiverService_get_generic_doc_type g = ReceiverService_get_generic_doc_type f)"
  using assms Email_prefix_EMAIL [OF assms(1)]
  by (simp add: ReceiverService_get_generic_doc_type_def)

theorem classifiers_disagree_on_Email_prefix_witness:
  "ReceiverService_get_generic_doc_type ''Email_1.pdf'' = ''PDF'' \<and>
   get_generic_doc_type None (Some ''Email_1.pdf'') = ''EMAIL'' \<and>
   get_generic_doc_type (Some []) (Some ''Email_1.pdf'') = ''EMAIL'' \<and>
   ReceiverService_get_generic_doc_type ''Email_1.pdf'' \<noteq>
     get_generic_doc_type None (Some ''Email_1.pdf'') \<and>
   ReceiverService_get_generic_doc_type ''scan.PDF'' =
     ReceiverService_get_generic_doc_type ''Email_1.pdf''"
proof -
  have p: "startswith ''Email_1.pdf'' ''Email_''"
    by (simp add: startswith_def)
  have x: "snd (splitext (lower ''Email_1.pdf'')) = ''.pdf''"
    by code_simp
  have y: "snd (splitext (lower ''scan.PDF'')) = ''.pdf''"
    by code_simp
  have t: "dict_get receiver_extension_mapping ''.pdf'' ''OTHER'' = ''PDF''"
    by code_simp
  from t have q: "dict_get receiver_extension_mapping (snd (splitext (lower ''Email_1.pdf'')))
      ''OTHER'' \<noteq> ''EMAIL''"
    by (simp add: x)
  show ?thesis
    using classifiers_disagree_on_Email_prefix [OF p q, of "''scan.PDF''"]
    by (simp add: x y t)
qed

lemma lower_of_truthy: "(if truthy (Some m) then lower (the (Some m)) else []) = lower m"
  by (simp add: truthy_def lower_def)

lemma lowercase_prefix_not_Email:
  assumes "startswith n ''email_''"
  shows "\<not> startswith n ''Email_''" and "n \<noteq> []"
  using assms by (auto simp: startswith_def)

text \<open>
  C10. The MIME type is compared in lower case: two MIME types that differ in case only
  are classified alike, and an absent MIME type is classified as the empty one. The
  prefix test on the file name is case-sensitive: with no MIME type or the empty one, a
  name that starts with \<open>Email_\<close> is \<open>EMAIL\<close>, and a name that starts with \<open>email_\<close>
  goes to the extension table, so that \<open>email_1.txt\<close> is \<open>TEXT\<close>.
\<close>

theorem mime_case_insensitive_prefix_case_sensitive:
  "(lower m1 = lower m2 \<longrightarrow>
      get_generic_doc_type (Some m1) f = get_generic_doc_type (Some m2) f) \<and>
   get_generic_doc_type None f = get_generic_doc_type (Some []) f \<and>
   (startswith n ''Email_'' \<longrightarrow>
      get_generic_doc_type None (Some n) = ''EMAIL'' \<and>
      get_generic_doc_type (Some []) (Some n) = ''EMAIL'') \<and>
   (startswith n ''email_'' \<longrightarrow>
      get_generic_doc_type None (Some n) =
        dict_get extension_mapping (snd (splitext (lower n))) ''OTHER'' \<and>
      get_generic_doc_type (Some []) (Some n) =
        dict_get extension_mapping (snd (splitext (lower n))) ''OTHER'') \<and>
   get_generic_doc_type None (Some ''email_1.txt'') = ''TEXT''"
proof (intro conjI impI)
  assume "lower m1 = lower m2"
  then show "get_generic_doc_type (Some m1) f = get_generic_doc_type (Some m2) f"
    unfolding get_generic_doc_type_def lower_of_truthy by simp
next
  show "get_generic_doc_type None f = get_generic_doc_type (Some []) f"
    by (simp add: get_generic_doc_type_def truthy_def)
next
  assume "startswith n ''Email_''"
  then show "get_generic_doc_type None (Some n) = ''EMAIL''"
    and "get_generic_doc_type (Some []) (Some n) = ''EMAIL''"
    by (rule Email_prefix_EMAIL)+
next
  assume a: "startswith n ''email_''"
  show "get_generic_doc_type None (Some n) =
      dict_get extension_mapping (snd (splitext (lower n))) ''OTHER''"
    using lowercase_prefix_not_Email [OF a]
    by (simp add: get_generic_doc_type_def truthy_def)
  show "get_generic_doc_type (Some []) (Some n) =
      dict_get extension_mapping (snd (splitext (lower n))) ''OTHER''"
    using lowercase_prefix_not_Email [OF a]
    by (simp add: get_generic_doc_type_def truthy_def)
next
  show "get_generic_doc_type None (Some ''email_1.txt'') = ''TEXT''"
    by code_simp
qed

theorem mime_case_insensitive_prefix_case_sensitive_witness:
  "get_generic_doc_type (Some ''Application/PDF'') (Some ''a.bin'') =
     get_generic_doc_type (Some ''application/pdf'') (Some ''a.bin'') \<and>
   get_generic_doc_type None (Some ''Email_1.txt'') = ''EMAIL'' \<and>
   get_generic_doc_type (Some []) (Some ''Email_1.txt'') = ''EMAIL'' \<and>
   get_generic_doc_type None (Some ''email_1.txt'') = ''TEXT'' \<and>
   get_generic_doc_type (Some []) (Some ''email_1.txt'') = ''TEXT''"
proof -
  have l: "lower ''Application/PDF'' = lower ''application/pdf''"
    by code_simp
  have x: "dict_get extension_mapping (snd (splitext (lower ''email_1.txt''))) ''OTHER'' = ''TEXT''"
    by code_simp
  show ?thesis
    using mime_case_insensitive_prefix_case_sensitive
        [of "''Application/PDF''" "''application/pdf''" "Some ''a.bin''" "''Email_1.txt''"]
      mime_case_insensitive_prefix_case_sensitive
        [of "''Application/PDF''" "''application/pdf''" "Some ''a.bin''" "''email_1.txt''"]
    by (simp add: l x startswith_def)
qed

section \<open>Properties of the extraction strategies and of the pipeline\<close>

lemma isspace_newline: "isspace (CHR 0x0A)"
  by (simp add: isspace_def)

lemma rstrip_newline: "rstrip (t @ ''\<newline>'') = rstrip t"
  by (simp add: rstrip_def isspace_newline)

lemma strip_newline: "strip (t @ ''\<newline>'') = strip t"
  by (simp add: strip_def rstrip_newline)

lemma strip_Nil: "strip [] = []"
  by (simp add: strip_def lstrip_def rstrip_def)

lemma pdf_pages_loop_acc:
  "pdf_pages_loop pages acc =
     acc @ concat (map (\<lambda>t. t @ ''\<newline>'') (filter (\<lambda>t. strip t \<noteq> []) (readable_texts pages)))"
proof (induction pages arbitrary: acc)
  case Nil
  then show ?case by (simp add: readable_texts_def)
next
  case (Cons page pages)
  show ?case
  proof (cases page)
    case (Inl e)
    then show ?thesis using Cons.IH [of acc] by (simp add: readable_texts_def)
  next
    case (Inr t)
    then show ?thesis
      using Cons.IH [of acc] Cons.IH [of "acc @ t @ ''\<newline>''"]
      by (simp add: readable_texts_def)
  qed
qed

lemma pdf_pages_loop_spec: "strip (pdf_pages_loop pages []) = pdf_text_spec pages"
  by (simp add: pdf_pages_loop_acc pdf_text_spec_def)

lemma pdf_two_pages:
  "pdf_text_spec [Inl e, Inr t] = strip t" "pdf_text_spec [Inr t, Inl e] = strip t"
  by (simp_all add: pdf_text_spec_def readable_texts_def strip_newline strip_Nil)

text \<open>
  C6, as amended. \<open>extract_text_from_pdf\<close> never raises. When the file cannot be opened,
  or the reader cannot be built, it returns the empty string; otherwise it returns the
  texts of the readable, non-blank pages, each followed by a newline, in page order, with
  the white space stripped at both ends of the whole. A page that raises adds nothing and
  does not stop the pages after it: for one unreadable and one readable page, in either
  order, the result is the readable page's text stripped at both ends.
\<close>

theorem extract_text_from_pdf_pages:
  "extract_text_from_pdf env w file_path =
     Inr (case open_file w file_path of
            Inl e \<Rightarrow> []
          | Inr file \<Rightarrow> (case PdfReader env file of Inl e \<Rightarrow> [] | Inr pages \<Rightarrow> pdf_text_spec pages)) \<and>
   pdf_text_spec [Inl e, Inr t] = strip t \<and>
   pdf_text_spec [Inr t, Inl e] = strip t"
  by (simp add: extract_text_from_pdf_def pdf_try_body_def pdf_pages_loop_spec pdf_two_pages
      split: sum.splits)

text \<open>
  C6 as it is stated fails: for an unreadable page followed by a page whose text is
  \<open>hi\<close> after a space, the result is \<open>hi\<close>, which is not the page's text, nor what
  trimming the trailing white space alone leaves.
\<close>

theorem extract_text_from_pdf_counterexample:
  "extract_text_from_pdf sample_env (staged_world ''b.pdf'' ''%PDF'') ''temp/b.pdf'' = Inr ''hi'' \<and>
   ''hi'' \<noteq> '' hi'' \<and> rstrip ('' hi'' @ ''\<newline>'') = '' hi''"
  by code_simp

text \<open>
  C2 at a failing input: a Word file the library rejects. \<open>extract_text_from_word\<close>
  raises what the library raised instead of returning the empty string, and the run over
  a session that holds this one document ends with \<open>Failed to process session\<close>.
\<close>

theorem extract_text_from_word_raises:
  "extract_text_from_word sample_env (staged_world ''r.docx'' ''PK'') ''temp/r.docx'' =
     Inl (Exn ''Package not found'') \<and>
   process_session_documents sample_env (sample_world [sample_doc ''1'' ''r.docx'' ''WORD'']) ''s'' =
     (\<lparr>db = [sample_doc ''1'' ''r.docx'' ''WORD''], files = [(''temp/r.docx'', ''hello'')], temp_exists = True,
       llm_calls = [], uuid_seed = 0\<rparr>,
      Inl (Exn ''Failed to process session: Package not found''))"
  by code_simp

lemma pdf_never_raises: "\<exists>t. extract_text_from_pdf env w p = Inr t"
  by (simp add: extract_text_from_pdf_def split: sum.splits)

lemma image_never_raises: "\<exists>t. extract_text_from_image env w p = Inr t"
  by (simp add: extract_text_from_image_def split: sum.splits)

lemma extract_text_default:
  "doc_type doc \<notin> {''PDF'', ''WORD'', ''IMAGE'', ''EMAIL''} \<Longrightarrow> extract_text env w doc p = Inr []"
  by (simp add: extract_text_def)



lemma persist_empty:
  "db_commit env (doc\<lparr>extracted_text := Some [], entity_list := Some []\<rparr>) = None \<Longrightarrow>
   persist env w doc [] =
     (w\<lparr>db := map (\<lambda>d. if doc_id d = doc_id doc
                        then doc\<lparr>extracted_text := Some [], entity_list := Some []\<rparr> else d) (db w)\<rparr>,
      None)"
  by (simp add: persist_def)

lemma persist_commit:
  "persist env w doc text =
     (let t = (if text \<noteq> [] then refine_text_using_llm text else []);
          n = (if text \<noteq> [] then extract_entities_using_llm t else []);
          w3 = (if text \<noteq> [] then w\<lparr>llm_calls := llm_calls w @ [Refine text, ExtractEntities t]\<rparr> else w)
      in if db_commit env (doc\<lparr>extracted_text := Some t, entity_list := Some n\<rparr>) = None
         then (w3\<lparr>db := map (\<lambda>d. if doc_id d = doc_id doc
                     then doc\<lparr>extracted_text := Some t, entity_list := Some n\<rparr> else d) (db w3)\<rparr>, None)
         else (w3, db_commit env (doc\<lparr>extracted_text := Some t, entity_list := Some n\<rparr>)))"
  unfolding persist_def Let_def by (simp split: option.splits)

lemma persist_db_cases:
  assumes "persist env w doc text = (w', r)"
  shows "(r \<noteq> None \<and> db w' = db w) \<or>
     (r = None \<and> (\<exists>t n. db w' = map (\<lambda>d. if doc_id d = doc_id doc
            then doc\<lparr>extracted_text := Some t, entity_list := Some n\<rparr> else d) (db w)))"
proof -
  define t where "t = (if text \<noteq> [] then refine_text_using_llm text else [])"
  define n where "n = (if text \<noteq> [] then extract_entities_using_llm t else [])"
  define w3 where "w3 = (if text \<noteq> [] then w\<lparr>llm_calls := llm_calls w @ [Refine text, ExtractEntities t]\<rparr> else w)"
  have dbw3: "db w3 = db w" by (simp add: w3_def)
  have eq: "persist env w doc text =
      (if db_commit env (doc\<lparr>extracted_text := Some t, entity_list := Some n\<rparr>) = None
         then (w3\<lparr>db := map (\<lambda>d. if doc_id d = doc_id doc
                     then doc\<lparr>extracted_text := Some t, entity_list := Some n\<rparr> else d) (db w3)\<rparr>, None)
         else (w3, db_commit env (doc\<lparr>extracted_text := Some t, entity_list := Some n\<rparr>)))"
    unfolding persist_commit [of env w doc "text"] Let_def t_def n_def w3_def ..
  show ?thesis
  proof (cases "db_commit env (doc\<lparr>extracted_text := Some t, entity_list := Some n\<rparr>) = None")
    case True
    with assms eq have "r = None"
      and "db w' = map (\<lambda>d. if doc_id d = doc_id doc
            then doc\<lparr>extracted_text := Some t, entity_list := Some n\<rparr> else d) (db w)"
      using dbw3 by auto
    then show ?thesis by blast
  next
    case False
    with assms eq have "r \<noteq> None" and "db w' = db w"
      using dbw3 by auto
    then show ?thesis by simp
  qed
qed


lemma process_document_db_cases:
  assumes step: "process_document env sid w doc = (w', r)"
  shows "(r \<noteq> None \<and> db w' = db w) \<or>
     (r = None \<and> (\<exists>t n. db w' = map (\<lambda>d. if doc_id d = doc_id doc
            then doc\<lparr>extracted_text := Some t, entity_list := Some n\<rparr> else d) (db w)))"
proof (cases "open_for_writing env (doc_name doc)")
  case (Some e)
  then show ?thesis using step by (auto simp: process_document_def Let_def)
next
  case None
  note opened = None
  show ?thesis
  proof (cases "download_blob env (sid @ ''/'' @ doc_name doc)")
    case (Inl e)
    then show ?thesis using step opened by (auto simp: process_document_def Let_def)
  next
    case (Inr content)
    let ?w2 = "w\<lparr>files := write_file (files w) (path_join ''temp'' (doc_name doc)) content,
      temp_exists := True\<rparr>"
    show ?thesis
    proof (cases "extract_text env ?w2 doc (path_join ''temp'' (doc_name doc))")
      case (Inl e)
      then show ?thesis using step opened Inr by (auto simp: process_document_def Let_def)
    next
      case raw: (Inr raw_text)
      from step opened Inr raw have "persist env ?w2 doc raw_text = (w', r)"
        by (simp add: process_document_def Let_def)
      from persist_db_cases [OF this] show ?thesis by simp
    qed
  qed
qed


text \<open>
  A row whose name is empty (the receiver creates one for a blob whose name ends in \<open>/\<close>),
  or is \<open>.\<close> or \<open>..\<close>, cannot be staged: its turn raises before the download, with the
  staging directory made and nothing else changed.
\<close>

lemma name_that_is_a_directory:
  assumes "doc_name doc = [] \<or> doc_name doc = ''.'' \<or> doc_name doc = ''..''"
  shows "process_document env sid w doc = (w\<lparr>temp_exists := True\<rparr>, Some (Exn ''Is a directory''))"
  using assms by (auto simp: process_document_def open_for_writing_def Let_def)

lemma failing_turn_keeps_db:
  assumes "snd (process_document env sid w doc) \<noteq> None"
  shows "db (fst (process_document env sid w doc)) = db w"
  using assms process_document_db_cases [of env sid w doc "fst (process_document env sid w doc)"
      "snd (process_document env sid w doc)"]
  by auto

lemma update_keeps_metadata:
  assumes "doc \<in> set rows" and "distinct (map doc_id rows)"
  shows "map metadata (map (\<lambda>d. if doc_id d = doc_id doc
            then doc\<lparr>extracted_text := Some t, entity_list := Some n\<rparr> else d) rows) = map metadata rows"
proof -
  have "\<And>d. d \<in> set rows \<Longrightarrow> doc_id d = doc_id doc \<Longrightarrow> d = doc"
    using assms by (meson distinct_map inj_onD)
  then show ?thesis
    by (auto simp: metadata_def)
qed

lemma update_keeps_others:
  assumes "d \<in> set rows" and "doc_id d \<noteq> doc_id doc"
  shows "d \<in> set (map (\<lambda>d. if doc_id d = doc_id doc then doc' else d) rows)"
  using assms by (auto simp: image_iff intro!: bexI [of _ d])

lemma process_documents_metadata:
  assumes "set docs \<subseteq> set (db w)" and "distinct (map doc_id docs)"
    and "distinct (map doc_id (db w))"
  shows "map metadata (db (fst (process_documents env sid w docs))) = map metadata (db w)"
  using assms
proof (induction docs arbitrary: w)
  case Nil
  then show ?case by simp
next
  case (Cons doc docs)
  obtain w' r where step: "process_document env sid w doc = (w', r)"
    by (cases "process_document env sid w doc")
  from Cons.prems have mem: "doc \<in> set (db w)" by simp
  note cases = process_document_db_cases [OF step]
  have meta: "map metadata (db w') = map metadata (db w)"
    using cases update_keeps_metadata [OF mem Cons.prems(3)] by auto
  show ?case
  proof (cases r)
    case (Some e)
    with step meta show ?thesis by simp
  next
    case None
    have ids: "map doc_id (db w') = map doc_id (db w)"
    proof -
      have "map doc_id (map metadata (db w')) = map doc_id (map metadata (db w))"
        using meta by simp
      then show ?thesis by (simp add: metadata_def comp_def)
    qed
    have sub: "set docs \<subseteq> set (db w')"
    proof
      fix d assume d: "d \<in> set docs"
      with Cons.prems have "d \<in> set (db w)" and "doc_id d \<noteq> doc_id doc"
        by (auto simp: image_iff)
      then show "d \<in> set (db w')"
        using cases None update_keeps_others [of d "db w" doc] by auto
    qed
    have "map metadata (db (fst (process_documents env sid w' docs))) = map metadata (db w')"
      using Cons.IH [OF sub] Cons.prems(2,3) ids by simp
    with step None meta show ?thesis by simp
  qed
qed

lemma distinct_ids_filter:
  "distinct (map doc_id rows) \<Longrightarrow> distinct (map doc_id (filter P rows))"
  by (simp add: distinct_map_filter)

lemma run_keeps_metadata:
  assumes "distinct (map doc_id (db w))"
  shows "map metadata (db (fst (process_session_documents env w sid))) = map metadata (db w)"
proof -
  let ?docs = "filter (\<lambda>d. session_id d = sid) (db w)"
  have "map metadata (db (fst (process_documents env sid w ?docs))) = map metadata (db w)"
    by (rule process_documents_metadata) (use assms in \<open>auto simp: distinct_ids_filter\<close>)
  moreover obtain w' r where "process_documents env sid w ?docs = (w', r)"
    by (cases "process_documents env sid w ?docs")
  ultimately show ?thesis
    by (cases r) (simp_all add: process_session_documents_def)
qed

lemma metadata_status: "map metadata rows' = map metadata rows \<Longrightarrow> map status rows' = map status rows"
proof -
  assume "map metadata rows' = map metadata rows"
  then have "map status (map metadata rows') = map status (map metadata rows)" by simp
  then show ?thesis by (simp add: metadata_def comp_def)
qed


text \<open>
  C1, as amended. A run of the extraction pipeline writes no status: with row identifiers
  distinct, every row keeps its identifier, name, kind, status, locator and session
  through the run, whatever its outcome; only the two text columns can change. A turn of
  the loop that fails (download, extraction or commit) leaves the committed rows as they
  were, the row of the failing document included.
\<close>

theorem failed_document_leaves_records:
  "(distinct (map doc_id (db w)) \<longrightarrow>
      map metadata (db (fst (process_session_documents env w sid))) = map metadata (db w) \<and>
      map status (db (fst (process_session_documents env w sid))) = map status (db w)) \<and>
   (snd (process_document env sid w doc) \<noteq> None \<longrightarrow>
      db (fst (process_document env sid w doc)) = db w)"
  using run_keeps_metadata [of w env sid] metadata_status failing_turn_keeps_db [of env sid w doc]
  by blast

theorem failed_document_leaves_records_witness:
  "map status (db (fst (process_session_documents failing_download_env
      (sample_world [sample_doc ''1'' ''a.txt'' ''EMAIL'', sample_doc ''2'' ''b.pdf'' ''PDF'']) ''s''))) =
     [''RECEIVED'', ''RECEIVED''] \<and>
   db (fst (process_document failing_download_env ''s''
      (sample_world [sample_doc ''1'' ''a.txt'' ''EMAIL'', sample_doc ''2'' ''b.pdf'' ''PDF''])
      (sample_doc ''1'' ''a.txt'' ''EMAIL''))) =
     [sample_doc ''1'' ''a.txt'' ''EMAIL'', sample_doc ''2'' ''b.pdf'' ''PDF'']"
proof -
  let ?w = "sample_world [sample_doc ''1'' ''a.txt'' ''EMAIL'', sample_doc ''2'' ''b.pdf'' ''PDF'']"
  have d: "distinct (map doc_id (db ?w))"
    by code_simp
  have f: "snd (process_document failing_download_env ''s'' ?w (sample_doc ''1'' ''a.txt'' ''EMAIL'')) \<noteq> None"
    by code_simp
  have s: "map status (db ?w) = [''RECEIVED'', ''RECEIVED'']"
    by code_simp
  have r: "db ?w = [sample_doc ''1'' ''a.txt'' ''EMAIL'', sample_doc ''2'' ''b.pdf'' ''PDF'']"
    by (simp add: sample_world_def)
  show ?thesis
    using failed_document_leaves_records
      [of ?w failing_download_env "''s''" "sample_doc ''1'' ''a.txt'' ''EMAIL''"] d f s r
    by simp
qed

text \<open>
  C1 as it is stated fails: in a session of two documents where the download of the first
  fails, the run raises \<open>Failed to process session\<close>; the first document is not marked
  \<open>FAILED\<close>, and the second, whose download would succeed, is never processed.
\<close>

theorem failed_download_aborts_run_counterexample:
  "process_session_documents failing_download_env
      (sample_world [sample_doc ''1'' ''a.txt'' ''EMAIL'', sample_doc ''2'' ''b.pdf'' ''PDF'']) ''s'' =
     (\<lparr>db = [sample_doc ''1'' ''a.txt'' ''EMAIL'', sample_doc ''2'' ''b.pdf'' ''PDF''],
       files = [(''temp/a.txt'', [])], temp_exists = True, llm_calls = [], uuid_seed = 0\<rparr>,
      Inl (Exn ''Failed to process session: BlobNotFound'')) \<and>
   status (sample_doc ''1'' ''a.txt'' ''EMAIL'') \<noteq> ''FAILED'' \<and>
   extracted_text (sample_doc ''2'' ''b.pdf'' ''PDF'') = None \<and>
   download_blob failing_download_env ''s/b.pdf'' = Inr ''hello''"
  by code_simp

text \<open>
  C3, as amended. For a document whose staging file can be opened for writing, whose
  download succeeds, whose kind is none of \<open>PDF\<close>, \<open>WORD\<close>, \<open>IMAGE\<close>, \<open>EMAIL\<close> (so
  \<open>OTHER\<close>) or whose extraction yields the empty text, and whose commit succeeds: the
  turn ends without an exception, the two language-model collaborators are not called,
  and the row is committed with the empty string as extracted text, the empty string as
  entity list, and the status it had.
\<close>

theorem empty_text_persisted_status_kept:
  assumes "open_for_writing env (doc_name doc) = None"
    and "download_blob env (sid @ ''/'' @ doc_name doc) = Inr content"
    and "doc_type doc \<notin> {''PDF'', ''WORD'', ''IMAGE'', ''EMAIL''} \<or>
         extract_text env
           (w\<lparr>files := write_file (files w) (path_join ''temp'' (doc_name doc)) content,
              temp_exists := True\<rparr>)
           doc (path_join ''temp'' (doc_name doc)) = Inr []"
    and "db_commit env (doc\<lparr>extracted_text := Some [], entity_list := Some []\<rparr>) = None"
  shows "snd (process_document env sid w doc) = None \<and>
         llm_calls (fst (process_document env sid w doc)) = llm_calls w \<and>
         db (fst (process_document env sid w doc)) =
           map (\<lambda>d. if doc_id d = doc_id doc
                    then doc\<lparr>extracted_text := Some [], entity_list := Some []\<rparr> else d) (db w) \<and>
         (\<forall>d \<in> set (db (fst (process_document env sid w doc))). doc_id d = doc_id doc \<longrightarrow>
            extracted_text d = Some [] \<and> entity_list d = Some [] \<and> status d = status doc)"
proof -
  let ?w2 = "w\<lparr>files := write_file (files w) (path_join ''temp'' (doc_name doc)) content,
    temp_exists := True\<rparr>"
  let ?doc' = "doc\<lparr>extracted_text := Some [], entity_list := Some []\<rparr>"
  from assms(3) have raw: "extract_text env ?w2 doc (path_join ''temp'' (doc_name doc)) = Inr []"
    using extract_text_default by blast
  have "process_document env sid w doc = persist env ?w2 doc []"
    using assms(1,2) raw by (simp add: process_document_def Let_def)
  also have "\<dots> = (?w2\<lparr>db := map (\<lambda>d. if doc_id d = doc_id doc then ?doc' else d) (db ?w2)\<rparr>, None)"
    by (rule persist_empty [OF assms(4)])
  finally show ?thesis by auto
qed

theorem empty_text_persisted_status_kept_witness:
  "snd (process_document sample_env ''s'' (sample_world [sample_doc ''1'' ''file.bin'' ''OTHER''])
      (sample_doc ''1'' ''file.bin'' ''OTHER'')) = None \<and>
   llm_calls (fst (process_document sample_env ''s'' (sample_world [sample_doc ''1'' ''file.bin'' ''OTHER''])
      (sample_doc ''1'' ''file.bin'' ''OTHER''))) = [] \<and>
   db (fst (process_document sample_env ''s'' (sample_world [sample_doc ''1'' ''file.bin'' ''OTHER''])
      (sample_doc ''1'' ''file.bin'' ''OTHER''))) =
     [(sample_doc ''1'' ''file.bin'' ''OTHER'')\<lparr>extracted_text := Some [], entity_list := Some []\<rparr>]"
proof -
  let ?d = "sample_doc ''1'' ''file.bin'' ''OTHER''"
  let ?w = "sample_world [?d]"
  have o: "open_for_writing sample_env (doc_name ?d) = None"
    by (simp add: open_for_writing_def sample_env_def sample_doc_def)
  have a: "download_blob sample_env (''s'' @ ''/'' @ doc_name ?d) = Inr ''hello''"
    by (simp add: sample_env_def)
  have b: "doc_type ?d \<notin> {''PDF'', ''WORD'', ''IMAGE'', ''EMAIL''} \<or>
      extract_text sample_env
        (?w\<lparr>files := write_file (files ?w) (path_join ''temp'' (doc_name ?d)) ''hello'',
            temp_exists := True\<rparr>)
        ?d (path_join ''temp'' (doc_name ?d)) = Inr []"
    by (simp add: sample_doc_def)
  have c: "db_commit sample_env (?d\<lparr>extracted_text := Some [], entity_list := Some []\<rparr>) = None"
    by (simp add: sample_env_def)
  have l: "llm_calls ?w = []" and r: "db ?w = [?d]"
    by (simp_all add: sample_world_def)
  show ?thesis
    using empty_text_persisted_status_kept [OF o a b c] l r by simp
qed

text \<open>
  C3 as it is stated fails: a document of kind \<open>OTHER\<close> with status \<open>RECEIVED\<close> is
  committed with empty text and an empty entity list by a run that succeeds, and its
  status is still \<open>RECEIVED\<close>, not \<open>PROCESSED\<close>.
\<close>

theorem no_PROCESSED_status_counterexample:
  "process_session_documents sample_env (sample_world [sample_doc ''1'' ''file.bin'' ''OTHER'']) ''s'' =
     (\<lparr>db = [\<lparr>doc_id = ''1'', doc_name = ''file.bin'', doc_type = ''OTHER'', status = ''RECEIVED'',
              azure_blob_url = ''https://blobs/s/file.bin'', session_id = ''s'',
              extracted_text = Some [], entity_list = Some []\<rparr>],
       files = [(''temp/file.bin'', ''hello'')], temp_exists = True, llm_calls = [], uuid_seed = 0\<rparr>,
      Inr (''success'', ''All documents for session s processed successfully'')) \<and>
   ''RECEIVED'' \<noteq> ''PROCESSED''"
  by code_simp





section \<open>Properties of the staging directory\<close>


















section \<open>Properties of ingestion\<close>

lemma ingest_blob_exists:
  assumes "lookup_blob (db w) sid b = Some d"
  shows "ingest_blob env sid w b = (w, exists_entry d)"
  using assms by (simp add: ingest_blob_def lookup_blob_def exists_entry_def Let_def)

lemma ingest_blobs_all_exist:
  assumes "\<forall>b \<in> set blobs. lookup_blob (db w) sid b \<noteq> None"
  shows "ingest_blobs env sid w blobs =
           (w, map (\<lambda>b. exists_entry (the (lookup_blob (db w) sid b))) blobs)"
  using assms
proof (induction blobs)
  case Nil
  show ?case by simp
next
  case (Cons b blobs)
  then obtain d where "lookup_blob (db w) sid b = Some d" by auto
  with Cons ingest_blob_exists [of w sid b d env] show ?case by simp
qed

lemma find_existing_append:
  "find_existing rows n sid k \<noteq> None \<Longrightarrow> find_existing (rows @ extra) n sid k \<noteq> None"
  by (auto simp: find_existing_def find_None_iff)

lemma lookup_blob_append:
  "lookup_blob rows sid b \<noteq> None \<Longrightarrow> lookup_blob (rows @ extra) sid b \<noteq> None"
  unfolding lookup_blob_def by (rule find_existing_append)

lemma create_document_cases:
  assumes "create_document env sid w b = (w', r)"
  shows "(result_status r = ''error'' \<and> db w' = db w) \<or>
         (result_status r = ''success'' \<and> (\<exists>d. db w' = db w @ [d] \<and>
            doc_name d = basename b \<and> session_id d = sid \<and>
            doc_type d = ReceiverService_get_generic_doc_type (basename b)))"
proof -
  let ?document = "\<lparr>doc_id = uuid4 env (uuid_seed w), doc_name = basename b,
      doc_type = ReceiverService_get_generic_doc_type (basename b), status = ''RECEIVED'',
      azure_blob_url = blob_url env b, session_id = sid, extracted_text = None, entity_list = None\<rparr>"
  show ?thesis
  proof (cases "db_commit env ?document")
    case None
    with assms have "result_status r = ''success''" and "db w' = db w @ [?document]"
      by (auto simp: create_document_def Let_def)
    then show ?thesis by auto
  next
    case (Some e)
    with assms have "result_status r = ''error''" and "db w' = db w"
      by (auto simp: create_document_def Let_def)
    then show ?thesis by simp
  qed
qed

lemma ingest_blob_cases:
  assumes "ingest_blob env sid w b = (w', r)"
  shows "\<exists>extra. db w' = db w @ extra"
    and "result_status r \<noteq> ''error'' \<Longrightarrow> lookup_blob (db w') sid b \<noteq> None"
proof -
  show "\<exists>extra. db w' = db w @ extra"
  proof (cases "lookup_blob (db w) sid b")
    case None
    with assms have "create_document env sid w b = (w', r)"
      by (simp add: ingest_blob_def lookup_blob_def Let_def)
    from create_document_cases [OF this] show ?thesis by auto
  next
    case (Some d)
    with assms ingest_blob_exists [OF Some, of env] show ?thesis by simp
  qed
  assume ok: "result_status r \<noteq> ''error''"
  show "lookup_blob (db w') sid b \<noteq> None"
  proof (cases "lookup_blob (db w) sid b")
    case None
    with assms have "create_document env sid w b = (w', r)"
      by (simp add: ingest_blob_def lookup_blob_def Let_def)
    from create_document_cases [OF this] ok obtain d where
      "db w' = db w @ [d]" "doc_name d = basename b" "session_id d = sid"
      "doc_type d = ReceiverService_get_generic_doc_type (basename b)"
      by auto
    then show ?thesis
      by (auto simp: lookup_blob_def find_existing_def find_None_iff)
  next
    case (Some d)
    with assms ingest_blob_exists [OF Some, of env] show ?thesis by simp
  qed
qed

lemma ingest_blobs_extends: "\<exists>extra. db (fst (ingest_blobs env sid w blobs)) = db w @ extra"
proof (induction blobs arbitrary: w)
  case Nil
  show ?case by simp
next
  case (Cons b blobs)
  obtain w' r where step: "ingest_blob env sid w b = (w', r)"
    by (cases "ingest_blob env sid w b")
  from ingest_blob_cases(1) [OF step] obtain m1 where "db w' = db w @ m1" ..
  moreover from Cons.IH [of w'] obtain m2 where
    "db (fst (ingest_blobs env sid w' blobs)) = db w' @ m2" ..
  ultimately show ?case using step by (auto split: prod.splits)
qed

lemma ingest_blobs_records_all:
  assumes "\<forall>r \<in> set (snd (ingest_blobs env sid w blobs)). result_status r \<noteq> ''error''"
  shows "\<forall>b \<in> set blobs. lookup_blob (db (fst (ingest_blobs env sid w blobs))) sid b \<noteq> None"
  using assms
proof (induction blobs arbitrary: w)
  case Nil
  show ?case by simp
next
  case (Cons b blobs)
  obtain w' r where step: "ingest_blob env sid w b = (w', r)"
    by (cases "ingest_blob env sid w b")
  obtain w'' rs where rest: "ingest_blobs env sid w' blobs = (w'', rs)"
    by (cases "ingest_blobs env sid w' blobs")
  from step rest have whole: "ingest_blobs env sid w (b # blobs) = (w'', r # rs)"
    by simp
  from Cons.prems whole have ok: "result_status r \<noteq> ''error''"
    and oks: "\<forall>r \<in> set (snd (ingest_blobs env sid w' blobs)). result_status r \<noteq> ''error''"
    using rest by simp_all
  from ingest_blobs_extends [of env sid w' blobs] rest obtain extra where "db w'' = db w' @ extra"
    by auto
  with ingest_blob_cases(2) [OF step ok] have "lookup_blob (db w'') sid b \<noteq> None"
    by (simp add: lookup_blob_append)
  moreover from Cons.IH [OF oks] rest
  have "\<forall>b \<in> set blobs. lookup_blob (db w'') sid b \<noteq> None" by simp
  ultimately show ?case using whole by simp
qed

text \<open>
  C7. When every blob listed for the session has a record of its session, name and kind,
  the receiver's run returns the state it was given, unchanged, and reports each of those
  records with status \<open>exists\<close>. So a second run after a run that reported no error
  changes nothing (no row is added or modified, no identifier is drawn) and reports
  \<open>exists\<close> for every blob. In any run, a blob that has a record is reported as
  \<open>exists\<close> and its turn leaves the state unchanged.
\<close>

theorem ingestion_idempotent:
  "((\<forall>b \<in> set (list_blobs env (sid @ ''/'')). lookup_blob (db w) sid b \<noteq> None) \<longrightarrow>
      ReceiverService_process_session_documents env w sid =
        (w, map (\<lambda>b. exists_entry (the (lookup_blob (db w) sid b))) (list_blobs env (sid @ ''/'')))) \<and>
   ((\<forall>r \<in> set (snd (ReceiverService_process_session_documents env w sid)).
        result_status r \<noteq> ''error'') \<longrightarrow>
      fst (ReceiverService_process_session_documents env
             (fst (ReceiverService_process_session_documents env w sid)) sid) =
        fst (ReceiverService_process_session_documents env w sid) \<and>
      (\<forall>r \<in> set (snd (ReceiverService_process_session_documents env
             (fst (ReceiverService_process_session_documents env w sid)) sid)).
         result_status r = ''exists'')) \<and>
   (lookup_blob (db w) sid b = Some d \<longrightarrow> ingest_blob env sid w b = (w, exists_entry d)) \<and>
   result_status (exists_entry d) = ''exists''"
proof (intro conjI impI)
  assume "\<forall>b \<in> set (list_blobs env (sid @ ''/'')). lookup_blob (db w) sid b \<noteq> None"
  then show "ReceiverService_process_session_documents env w sid =
      (w, map (\<lambda>b. exists_entry (the (lookup_blob (db w) sid b))) (list_blobs env (sid @ ''/'')))"
    unfolding ReceiverService_process_session_documents_def by (rule ingest_blobs_all_exist)
next
  let ?blobs = "list_blobs env (sid @ ''/'')"
  let ?w1 = "fst (ReceiverService_process_session_documents env w sid)"
  assume "\<forall>r \<in> set (snd (ReceiverService_process_session_documents env w sid)).
      result_status r \<noteq> ''error''"
  then have "\<forall>b \<in> set ?blobs. lookup_blob (db ?w1) sid b \<noteq> None"
    unfolding ReceiverService_process_session_documents_def by (rule ingest_blobs_records_all)
  then have again: "ReceiverService_process_session_documents env ?w1 sid =
      (?w1, map (\<lambda>b. exists_entry (the (lookup_blob (db ?w1) sid b))) ?blobs)"
    unfolding ReceiverService_process_session_documents_def by (rule ingest_blobs_all_exist)
  show "fst (ReceiverService_process_session_documents env ?w1 sid) = ?w1"
    by (simp add: again)
  show "\<forall>r \<in> set (snd (ReceiverService_process_session_documents env ?w1 sid)).
      result_status r = ''exists''"
    by (simp add: again exists_entry_def)
next
  assume "lookup_blob (db w) sid b = Some d"
  then show "ingest_blob env sid w b = (w, exists_entry d)"
    by (rule ingest_blob_exists)
next
  show "result_status (exists_entry d) = ''exists''"
    by (simp add: exists_entry_def)
qed

theorem ingestion_idempotent_witness:
  "ReceiverService_process_session_documents sample_env
      \<lparr>db = [sample_doc ''u'' ''a.txt'' ''EMAIL'', sample_doc ''uu'' ''b.pdf'' ''PDF''],
       files = [], temp_exists = False, llm_calls = [], uuid_seed = 2\<rparr> ''s'' =
     (\<lparr>db = [sample_doc ''u'' ''a.txt'' ''EMAIL'', sample_doc ''uu'' ''b.pdf'' ''PDF''],
       files = [], temp_exists = False, llm_calls = [], uuid_seed = 2\<rparr>,
      [DocResult ''u'' ''a.txt'' ''EMAIL'' ''exists'' ''https://blobs/s/a.txt'',
       DocResult ''uu'' ''b.pdf'' ''PDF'' ''exists'' ''https://blobs/s/b.pdf'']) \<and>
   fst (ReceiverService_process_session_documents sample_env
      (fst (ReceiverService_process_session_documents sample_env (sample_world []) ''s'')) ''s'') =
     \<lparr>db = [sample_doc ''u'' ''a.txt'' ''EMAIL'', sample_doc ''uu'' ''b.pdf'' ''PDF''],
      files = [], temp_exists = False, llm_calls = [], uuid_seed = 2\<rparr>"
proof -
  let ?w1 = "\<lparr>db = [sample_doc ''u'' ''a.txt'' ''EMAIL'', sample_doc ''uu'' ''b.pdf'' ''PDF''],
      files = [], temp_exists = False, llm_calls = [], uuid_seed = 2\<rparr>"
  have first: "ReceiverService_process_session_documents sample_env (sample_world []) ''s'' =
      (?w1, [DocResult ''u'' ''a.txt'' ''EMAIL'' ''success'' ''https://blobs/s/a.txt'',
             DocResult ''uu'' ''b.pdf'' ''PDF'' ''success'' ''https://blobs/s/b.pdf''])"
    by code_simp
  have blobs: "\<And>prefix. list_blobs sample_env prefix = [''s/a.txt'', ''s/b.pdf'']"
    by (simp add: sample_env_def)
  have a: "lookup_blob (db ?w1) ''s'' ''s/a.txt'' = Some (sample_doc ''u'' ''a.txt'' ''EMAIL'')"
    by code_simp
  have b: "lookup_blob (db ?w1) ''s'' ''s/b.pdf'' = Some (sample_doc ''uu'' ''b.pdf'' ''PDF'')"
    by code_simp
  have known: "\<forall>b \<in> set (list_blobs sample_env (''s'' @ ''/'')). lookup_blob (db ?w1) ''s'' b \<noteq> None"
    using a b by (simp add: blobs)
  have ok: "\<forall>r \<in> set (snd (ReceiverService_process_session_documents sample_env (sample_world []) ''s'')).
      result_status r \<noteq> ''error''"
    by (simp add: first)
  have e: "exists_entry (sample_doc ''u'' ''a.txt'' ''EMAIL'') =
        DocResult ''u'' ''a.txt'' ''EMAIL'' ''exists'' ''https://blobs/s/a.txt''"
      "exists_entry (sample_doc ''uu'' ''b.pdf'' ''PDF'') =
        DocResult ''uu'' ''b.pdf'' ''PDF'' ''exists'' ''https://blobs/s/b.pdf''"
    by (simp_all add: exists_entry_def sample_doc_def)
  from ingestion_idempotent [of sample_env "''s''" ?w1] known
  have one: "ReceiverService_process_session_documents sample_env ?w1 ''s'' =
      (?w1, map (\<lambda>b. exists_entry (the (lookup_blob (db ?w1) ''s'' b)))
              (list_blobs sample_env (''s'' @ ''/'')))"
    by blast
  from ingestion_idempotent [of sample_env "''s''" "sample_world []"] ok
  have two: "fst (ReceiverService_process_session_documents sample_env
      (fst (ReceiverService_process_session_documents sample_env (sample_world []) ''s'')) ''s'') =
      fst (ReceiverService_process_session_documents sample_env (sample_world []) ''s'')"
    by blast
  show ?thesis
  proof
    show "ReceiverService_process_session_documents sample_env ?w1 ''s'' =
      (?w1, [DocResult ''u'' ''a.txt'' ''EMAIL'' ''exists'' ''https://blobs/s/a.txt'',
             DocResult ''uu'' ''b.pdf'' ''PDF'' ''exists'' ''https://blobs/s/b.pdf''])"
      unfolding one blobs using a b e by simp
    show "fst (ReceiverService_process_session_documents sample_env
        (fst (ReceiverService_process_session_documents sample_env (sample_world []) ''s'')) ''s'') = ?w1"
      unfolding two by (simp add: first)
  qed
qed

end
